theory Spec2Isabelle
  imports Main "HOL-Library.Word"
begin

unbundle bit_operations_syntax

section \<open>Data model\<close>

text \<open>
  The firmware runs on an MSP430: \<open>unsigned char\<close> is 8 bits, \<open>unsigned int\<close> and
  \<open>int\<close> are 16 bits. An \<open>unsigned char\<close> operand of \<open>+\<close>, \<open><<\<close>, \<open>>>\<close> or
  \<open>==\<close> is promoted to \<open>int\<close> first, so the arithmetic itself does not wrap at 8 bits;
  only the assignment back to an \<open>unsigned char\<close> truncates.
\<close>

type_synonym u8 = "8 word"
type_synonym u16 = "16 word"

text \<open>
  Modelled from the spec: the macros \<open>BIT0\<close> .. \<open>BIT7\<close> come from the device header
  \<open>msp430.h\<close>, which is not among the sources. The spec numbers the bits of a byte from
  the least significant one (bit0..bit5 are alarm 1..6, bit7 is \<open>0x80\<close>), so \<open>BITn\<close> is
  \<open>2 ^ n\<close>.
\<close>

definition BIT0 :: u8 where "BIT0 = 0x01"
definition BIT1 :: u8 where "BIT1 = 0x02"
definition BIT2 :: u8 where "BIT2 = 0x04"
definition BIT3 :: u8 where "BIT3 = 0x08"
definition BIT4 :: u8 where "BIT4 = 0x10"
definition BIT5 :: u8 where "BIT5 = 0x20"
definition BIT6 :: u8 where "BIT6 = 0x40"
definition BIT7 :: u8 where "BIT7 = 0x80"

text \<open>config.h: day mask bits of an alarm.\<close>

definition MON :: u8 where "MON = BIT0"
definition TUE :: u8 where "TUE = BIT1"
definition WED :: u8 where "WED = BIT2"
definition THU :: u8 where "THU = BIT3"
definition FRI :: u8 where "FRI = BIT4"
definition SAT :: u8 where "SAT = BIT5"
definition SUN :: u8 where "SUN = BIT6"


text \<open>
  The globals of both C files and the peripheral registers the modelled functions touch.
  A leading underscore of a C name is dropped. \<open>DATA_STORE\<close> is the array
  \<open>unsigned char _DATA_STORE[31]\<close>, a list that the functions below keep at length 31.
\<close>

record rtc =
  DATA_STORE :: "u8 list"
  second_tick :: u16
  is_leap_year :: u8
  I2C_data_offset :: u8
  RTC_action_bits :: u8
  RTC_byte_l :: u8
  RTC_byte_h :: u8
  USI_I2C_slave_n_byte :: u8
  USI_I2C_slave_own_addr :: u8
  USI_I2C_slave_state :: u8
  USI_I2C_slave_RX_buff :: u8
  P1OUT :: u8
  TACCR0 :: u16
  USICTL0 :: u8
  USICTL1 :: u8
  USICNT :: u8
  USISRL :: u8

definition second_div :: u16 where "second_div = 2048"

text \<open>An access through a pointer beyond the 31 bytes of the array.\<close>

datatype fault = Out_Of_Bounds

section \<open>Time engine\<close>

text \<open>\<open>_init_DS\<close>.\<close>

definition init_DS :: "rtc \<Rightarrow> rtc" where
  "init_DS s =
    (let s1 = s\<lparr>DATA_STORE := (DATA_STORE s)[3 := 0x06]\<rparr>;
         s2 = s1\<lparr>DATA_STORE := (DATA_STORE s1)[4 := 0x01]\<rparr>;
         s3 = s2\<lparr>DATA_STORE := (DATA_STORE s2)[5 := 0x01]\<rparr>
     in s3\<lparr>DATA_STORE := (DATA_STORE s3)[7 := 0x20]\<rparr>)"

text \<open>\<open>_check_leap_year\<close>.\<close>

definition check_leap_year :: "rtc \<Rightarrow> rtc" where
  "check_leap_year s =
    (let s1 = s\<lparr>is_leap_year := 0\<rparr>;
         s2 = s1\<lparr>RTC_byte_l := push_bit 4 (DATA_STORE s1 ! 6)\<rparr>
     in if DATA_STORE s2 ! 6 AND 0x10 \<noteq> 0
        then (if RTC_byte_l s2 = 0x20 \<or> RTC_byte_l s2 = 0x60
              then s2\<lparr>is_leap_year := 1\<rparr> else s2)
        else (if RTC_byte_l s2 = 0x40 \<or> RTC_byte_l s2 = 0x80
              then s2\<lparr>is_leap_year := 1\<rparr> else s2))"

text \<open>\<open>_time_carry(_DATA_STORE + i)\<close>: the pointer argument is the index \<open>i\<close>.\<close>

definition time_carry :: "nat \<Rightarrow> rtc \<Rightarrow> rtc" where
  "time_carry i s =
    (let s1 = s\<lparr>RTC_byte_l := push_bit 4 (DATA_STORE s ! i)\<rparr>
     in if RTC_byte_l s1 = 0xA0
        then (let s2 = s1\<lparr>RTC_byte_h := drop_bit 4 (DATA_STORE s1 ! i)\<rparr>;
                  s3 = s2\<lparr>RTC_byte_h := RTC_byte_h s2 + 1\<rparr>
              in s3\<lparr>DATA_STORE := (DATA_STORE s3)[i := push_bit 4 (RTC_byte_h s3)]\<rparr>)
        else s1)"

text \<open>
  \<open>_time_increment\<close>, one definition for each of its consecutive blocks.
  Lines 180-187: the second.
\<close>

definition time_increment_second :: "rtc \<Rightarrow> rtc" where
  "time_increment_second s =
    (let s1 = s\<lparr>DATA_STORE := (DATA_STORE s)[0 := DATA_STORE s ! 0 + 1]\<rparr>
     in if DATA_STORE s1 ! 0 = 0x5A
        then (let s2 = s1\<lparr>DATA_STORE := (DATA_STORE s1)[0 := 0x00]\<rparr>;
                  s3 = s2\<lparr>DATA_STORE := (DATA_STORE s2)[1 := DATA_STORE s2 ! 1 + 1]\<rparr>
              in s3\<lparr>RTC_action_bits := RTC_action_bits s3 OR BIT3\<rparr>)
        else time_carry 0 s1)"

text \<open>Lines 189-194: the minute.\<close>

definition time_increment_minute :: "rtc \<Rightarrow> rtc" where
  "time_increment_minute s =
    (if DATA_STORE s ! 1 = 0x5A
     then (let s1 = s\<lparr>DATA_STORE := (DATA_STORE s)[1 := 0x00]\<rparr>
           in s1\<lparr>DATA_STORE := (DATA_STORE s1)[2 := DATA_STORE s1 ! 2 + 1]\<rparr>)
     else time_carry 1 s)"

text \<open>Lines 196-202: the hour.\<close>

definition time_increment_hour :: "rtc \<Rightarrow> rtc" where
  "time_increment_hour s =
    (if DATA_STORE s ! 2 = 0x24
     then (let s1 = s\<lparr>DATA_STORE := (DATA_STORE s)[2 := 0x00]\<rparr>;
               s2 = s1\<lparr>DATA_STORE := (DATA_STORE s1)[3 := DATA_STORE s1 ! 3 + 1]\<rparr>
           in s2\<lparr>DATA_STORE := (DATA_STORE s2)[4 := DATA_STORE s2 ! 4 + 1]\<rparr>)
     else time_carry 2 s)"

text \<open>Lines 204-205: the day of the week.\<close>

definition time_increment_day :: "rtc \<Rightarrow> rtc" where
  "time_increment_day s =
    (if DATA_STORE s ! 3 = 0x08
     then s\<lparr>DATA_STORE := (DATA_STORE s)[3 := 0x01]\<rparr>
     else s)"

text \<open>The body of each rolling branch of the switch: the 1st of the next month.\<close>

definition next_month :: "rtc \<Rightarrow> rtc" where
  "next_month s =
    (let s1 = s\<lparr>DATA_STORE := (DATA_STORE s)[4 := 0x01]\<rparr>
     in s1\<lparr>DATA_STORE := (DATA_STORE s1)[5 := DATA_STORE s1 ! 5 + 1]\<rparr>)"

text \<open>Lines 207-243: the switch on the date.\<close>

definition time_increment_date :: "rtc \<Rightarrow> rtc" where
  "time_increment_date s =
    (if DATA_STORE s ! 4 = 0x29 then
       (if DATA_STORE s ! 5 = 0x02 \<and> is_leap_year s = 0 then next_month s else s)
     else if DATA_STORE s ! 4 = 0x30 then
       (if DATA_STORE s ! 5 = 0x02 then next_month s else s)
     else if DATA_STORE s ! 4 = 0x31 then
       (if DATA_STORE s ! 5 = 0x04
           \<or> DATA_STORE s ! 5 = 0x06
           \<or> DATA_STORE s ! 5 = 0x09
           \<or> DATA_STORE s ! 5 = 0x11 then next_month s else s)
     else if DATA_STORE s ! 4 = 0x32 then
       (if DATA_STORE s ! 5 = 0x01
           \<or> DATA_STORE s ! 5 = 0x03
           \<or> DATA_STORE s ! 5 = 0x05
           \<or> DATA_STORE s ! 5 = 0x07
           \<or> DATA_STORE s ! 5 = 0x08
           \<or> DATA_STORE s ! 5 = 0x10
           \<or> DATA_STORE s ! 5 = 0x12 then next_month s else s)
     else time_carry 4 s)"

text \<open>Lines 245-251: the month.\<close>

definition time_increment_month :: "rtc \<Rightarrow> rtc" where
  "time_increment_month s =
    (if DATA_STORE s ! 5 = 0x13
     then (let s1 = s\<lparr>DATA_STORE := (DATA_STORE s)[5 := 0x01]\<rparr>;
               s2 = s1\<lparr>DATA_STORE := (DATA_STORE s1)[6 := DATA_STORE s1 ! 6 + 1]\<rparr>
           in s2\<lparr>RTC_action_bits := RTC_action_bits s2 OR BIT2\<rparr>)
     else time_carry 5 s)"

text \<open>Lines 253-258: the year.\<close>

definition time_increment_year :: "rtc \<Rightarrow> rtc" where
  "time_increment_year s =
    (if DATA_STORE s ! 6 = 0x9A
     then (let s1 = s\<lparr>DATA_STORE := (DATA_STORE s)[6 := 0x00]\<rparr>
           in s1\<lparr>DATA_STORE := (DATA_STORE s1)[7 := DATA_STORE s1 ! 7 + 1]\<rparr>)
     else time_carry 6 s)"

text \<open>Lines 260-264: the leap year flag is recomputed when the year has changed.\<close>

definition time_increment_leap :: "rtc \<Rightarrow> rtc" where
  "time_increment_leap s =
    (if RTC_action_bits s AND BIT2 \<noteq> 0
     then (let s1 = check_leap_year s
           in s1\<lparr>RTC_action_bits := RTC_action_bits s1 AND NOT BIT2\<rparr>)
     else s)"

text \<open>Lines 266-270: the century.\<close>

definition time_increment_century :: "rtc \<Rightarrow> rtc" where
  "time_increment_century s =
    (if DATA_STORE s ! 7 = 0x9A
     then s\<lparr>DATA_STORE := (DATA_STORE s)[7 := 0x00]\<rparr>
     else time_carry 7 s)"

text \<open>The state in which the switch on the date is entered.\<close>

definition time_increment_to_day :: "rtc \<Rightarrow> rtc" where
  "time_increment_to_day s =
    time_increment_day (time_increment_hour (time_increment_minute (time_increment_second s)))"

definition time_increment :: "rtc \<Rightarrow> rtc" where
  "time_increment s =
    time_increment_century (time_increment_leap (time_increment_year
      (time_increment_month (time_increment_date (time_increment_to_day s)))))"

section \<open>Alarm engine\<close>

text \<open>
  The condition of one alarm in \<open>_check_alarms\<close>, for the alarm whose minute byte is at
  offset \<open>a\<close>. The hour comparison \<open>_DATA_STORE[2] + 0x80 == _DATA_STORE[a + 1]\<close> is done
  on promoted \<open>int\<close> values: the sum does not wrap at 256.
\<close>

definition alarm_matches :: "u8 list \<Rightarrow> u8 \<Rightarrow> nat \<Rightarrow> bool" where
  "alarm_matches d day_mask_bit a =
    (d ! 1 = d ! a \<and>
     unat (d ! 2) + 0x80 = unat (d ! (a + 1)) \<and>
     (d ! (a + 2) AND 0x80 \<noteq> 0 \<or> d ! (a + 2) AND day_mask_bit \<noteq> 0))"

definition day_mask_of :: "u8 \<Rightarrow> u8" where
  "day_mask_of day =
    (if day = 0x01 then MON
     else if day = 0x02 then TUE
     else if day = 0x03 then WED
     else if day = 0x04 then THU
     else if day = 0x05 then FRI
     else if day = 0x06 then SAT
     else if day = 0x07 then SUN
     else 0x00)"

definition raise_flag :: "u8 \<Rightarrow> rtc \<Rightarrow> rtc" where
  "raise_flag b s = s\<lparr>DATA_STORE := (DATA_STORE s)[30 := DATA_STORE s ! 30 OR b]\<rparr>"

definition check_alarms :: "rtc \<Rightarrow> rtc" where
  "check_alarms s =
    (let day_mask_bit = day_mask_of (DATA_STORE s ! 3);
         s1 = (if alarm_matches (DATA_STORE s) day_mask_bit 8 then raise_flag BIT0 s else s);
         s2 = (if alarm_matches (DATA_STORE s1) day_mask_bit 11 then raise_flag BIT1 s1 else s1);
         s3 = (if alarm_matches (DATA_STORE s2) day_mask_bit 14 then raise_flag BIT2 s2 else s2);
         s4 = (if alarm_matches (DATA_STORE s3) day_mask_bit 17 then raise_flag BIT3 s3 else s3);
         s5 = (if alarm_matches (DATA_STORE s4) day_mask_bit 20 then raise_flag BIT4 s4 else s4)
     in if alarm_matches (DATA_STORE s5) day_mask_bit 23 then raise_flag BIT5 s5 else s5)"

section \<open>Bus callbacks\<close>

text \<open>
  \<open>*(_DATA_STORE + i) = v\<close> with a computed index: the C code does not check \<open>i\<close>, the
  model reports a store outside the array.
\<close>

definition store_at :: "nat \<Rightarrow> u8 \<Rightarrow> rtc \<Rightarrow> fault + rtc" where
  "store_at i v s =
    (if i < length (DATA_STORE s)
     then Inr (s\<lparr>DATA_STORE := (DATA_STORE s)[i := v]\<rparr>)
     else Inl Out_Of_Bounds)"


text \<open>
  One of the six guarded statements of case 30:
  \<open>if (!(_DATA_STORE[30] & BITn) && (byte_data & BITn)) byte_data &= ~BITn;\<close>
\<close>

definition keep_flag :: "u8 \<Rightarrow> u8 \<Rightarrow> u8 \<Rightarrow> u8" where
  "keep_flag flags b byte_data =
    (if flags AND b = 0 \<and> byte_data AND b \<noteq> 0 then byte_data AND NOT b else byte_data)"

text \<open>
  \<open>USI_I2C_slave_RX_callback\<close>: the argument is the byte the pointer refers to, the result
  the returned error code with the new state.
\<close>

definition USI_I2C_slave_RX_callback :: "u8 \<Rightarrow> rtc \<Rightarrow> fault + (u8 \<times> rtc)" where
  "USI_I2C_slave_RX_callback byte s =
    (let byte_data = byte
     in if USI_I2C_slave_n_byte s = 0
        then Inr (0, s\<lparr>I2C_data_offset := byte_data, USI_I2C_slave_n_byte := 1\<rparr>)
        else
          (case
             (if I2C_data_offset s \<noteq> 26 \<and> I2C_data_offset s \<noteq> 27
              then (if I2C_data_offset s = 30
                    then (let flags = DATA_STORE s ! 30;
                              b0 = keep_flag flags BIT0 byte_data;
                              b1 = keep_flag flags BIT1 b0;
                              b2 = keep_flag flags BIT2 b1;
                              b3 = keep_flag flags BIT3 b2;
                              b4 = keep_flag flags BIT4 b3;
                              b5 = keep_flag flags BIT5 b4
                          in Inr (s\<lparr>DATA_STORE := (DATA_STORE s)[30 := b5]\<rparr>))
                    else store_at (unat (I2C_data_offset s)) byte_data s)
              else Inr s)
           of Inl e \<Rightarrow> Inl e
            | Inr s1 \<Rightarrow> Inr (0, s1\<lparr>I2C_data_offset := I2C_data_offset s1 + 1\<rparr>)))"



section \<open>Bus protocol engine\<close>





section \<open>Tick scheduler\<close>

text \<open>The timer interrupt \<open>Timer_A0\<close>; \<open>_second_tick\<close> is a 16-bit \<open>unsigned int\<close>.\<close>

definition Timer_A0 :: "rtc \<Rightarrow> rtc" where
  "Timer_A0 s =
    (let s1 = s\<lparr>TACCR0 := TACCR0 s + second_div\<rparr>;
         s2 = s1\<lparr>second_tick := second_tick s1 + 1\<rparr>
     in if second_tick s2 = 2 then s2\<lparr>RTC_action_bits := RTC_action_bits s2 OR BIT4\<rparr>
        else if second_tick s2 = 4 then s2
        else if second_tick s2 = 6 then s2\<lparr>RTC_action_bits := RTC_action_bits s2 OR BIT5\<rparr>
        else if second_tick s2 = 8 then s2\<lparr>P1OUT := P1OUT s2 XOR BIT0\<rparr>
        else if second_tick s2 = 10 then s2
        else if second_tick s2 = 12 then s2\<lparr>RTC_action_bits := RTC_action_bits s2 OR BIT0\<rparr>
        else if second_tick s2 = 14 then s2
        else if second_tick s2 = 16
        then (let s3 = s2\<lparr>P1OUT := P1OUT s2 XOR BIT0\<rparr> in s3\<lparr>second_tick := 0\<rparr>)
        else s2)"

section \<open>Transactions\<close>

text \<open>
  The data bytes of one write transaction, as case 13 of \<open>USI_INT\<close> hands them to the
  receive callback one after the other; a non-zero result of the callback ends the
  transaction.
\<close>

fun receive_bytes :: "u8 list \<Rightarrow> rtc \<Rightarrow> fault + rtc" where
  "receive_bytes [] s = Inr s"
| "receive_bytes (b # bs) s =
    (case USI_I2C_slave_RX_callback b s of
       Inl e \<Rightarrow> Inl e
     | Inr (r, s') \<Rightarrow> if r = 0 then receive_bytes bs s' else Inr s')"

section \<open>Notions of the specification\<close>

text \<open>A byte holds two BCD digits, each from 0 to 9; its value as a number.\<close>

definition bcd_tens :: "u8 \<Rightarrow> nat" where
  "bcd_tens b = unat (drop_bit 4 b)"

definition bcd_units :: "u8 \<Rightarrow> nat" where
  "bcd_units b = unat (b AND 0x0F)"

definition valid_bcd :: "u8 \<Rightarrow> bool" where
  "valid_bcd b = (b AND 0x0F \<le> 9 \<and> drop_bit 4 b \<le> 9)"

definition bcd_val :: "u8 \<Rightarrow> nat" where
  "bcd_val b = 10 * bcd_tens b + bcd_units b"

text \<open>
  The leap year rule in the words of the specification: tens digit odd and units digit 2
  or 6, or tens digit even and units digit 4 or 8.
\<close>

definition leap_rule :: "u8 \<Rightarrow> bool" where
  "leap_rule year =
    ((odd (bcd_tens year) \<and> (bcd_units year = 2 \<or> bcd_units year = 6)) \<or>
     (even (bcd_tens year) \<and> (bcd_units year = 4 \<or> bcd_units year = 8)))"

text \<open>
  A valid calendar instant in the time and date bytes 0 to 7: every byte is BCD, the
  fields are in the ranges of the register table, and the date exists in its month. The
  29th of February exists in the leap years of the Gregorian calendar, read from the
  century and year bytes.
\<close>

definition leap_gregorian :: "u8 \<Rightarrow> u8 \<Rightarrow> bool" where
  "leap_gregorian century year =
    (if bcd_val year = 0 then bcd_val century mod 4 = 0 else bcd_val year mod 4 = 0)"

definition days_in_month :: "u8 \<Rightarrow> bool \<Rightarrow> u8" where
  "days_in_month month leap =
    (if month = 0x02 then (if leap then 0x29 else 0x28)
     else if month = 0x04 \<or> month = 0x06 \<or> month = 0x09 \<or> month = 0x11 then 0x30
     else 0x31)"

definition valid_calendar :: "u8 list \<Rightarrow> bool" where
  "valid_calendar d =
    (valid_bcd (d ! 0) \<and> valid_bcd (d ! 1) \<and> valid_bcd (d ! 2) \<and> valid_bcd (d ! 3) \<and>
     valid_bcd (d ! 4) \<and> valid_bcd (d ! 5) \<and> valid_bcd (d ! 6) \<and> valid_bcd (d ! 7) \<and>
     d ! 0 \<le> 0x59 \<and> d ! 1 \<le> 0x59 \<and> d ! 2 \<le> 0x23 \<and>
     0x01 \<le> d ! 3 \<and> d ! 3 \<le> 0x07 \<and>
     0x01 \<le> d ! 5 \<and> d ! 5 \<le> 0x12 \<and>
     0x01 \<le> d ! 4 \<and> d ! 4 \<le> days_in_month (d ! 5) (leap_gregorian (d ! 7) (d ! 6)))"

text \<open>
  The conditions under which the date rolls over to the 1st of the next month, for the
  date and month bytes and the cached leap year flag as the switch on the date finds them.
\<close>

definition date_rolls :: "u8 \<Rightarrow> u8 \<Rightarrow> u8 \<Rightarrow> bool" where
  "date_rolls date month leap =
    (date = 0x29 \<and> month = 0x02 \<and> leap = 0 \<or>
     date = 0x30 \<and> month = 0x02 \<or>
     date = 0x31 \<and> (month = 0x04 \<or> month = 0x06 \<or> month = 0x09 \<or> month = 0x11) \<or>
     date = 0x32 \<and> (month = 0x01 \<or> month = 0x03 \<or> month = 0x05 \<or> month = 0x07 \<or>
                     month = 0x08 \<or> month = 0x10 \<or> month = 0x12))"

section \<open>The time increment field by field\<close>

text \<open>What \<open>_time_carry\<close> leaves in the byte it is applied to.\<close>

definition carry_byte :: "u8 \<Rightarrow> u8" where
  "carry_byte b = (if push_bit 4 b = (0xA0 :: u8) then push_bit 4 (drop_bit 4 b + 1) else b)"

text \<open>
  The value a field has when its block of \<open>_time_increment\<close> is entered: the byte of
  the register file, incremented if the block before has carried into it. They are
  functions of the register file \<open>d\<close> at the call and of the cached leap year flag.
\<close>

definition minute_entered :: "u8 list \<Rightarrow> u8" where
  "minute_entered d = (if d ! 0 + 1 = 0x5A then d ! 1 + 1 else d ! 1)"

definition hour_entered :: "u8 list \<Rightarrow> u8" where
  "hour_entered d = (if minute_entered d = 0x5A then d ! 2 + 1 else d ! 2)"

definition day_entered :: "u8 list \<Rightarrow> u8" where
  "day_entered d = (if hour_entered d = 0x24 then d ! 3 + 1 else d ! 3)"

definition date_entered :: "u8 list \<Rightarrow> u8" where
  "date_entered d = (if hour_entered d = 0x24 then d ! 4 + 1 else d ! 4)"

definition month_entered :: "u8 list \<Rightarrow> u8 \<Rightarrow> u8" where
  "month_entered d leap = (if date_rolls (date_entered d) (d ! 5) leap then d ! 5 + 1 else d ! 5)"

definition year_entered :: "u8 list \<Rightarrow> u8 \<Rightarrow> u8" where
  "year_entered d leap = (if month_entered d leap = 0x13 then d ! 6 + 1 else d ! 6)"

definition century_entered :: "u8 list \<Rightarrow> u8 \<Rightarrow> u8" where
  "century_entered d leap = (if year_entered d leap = 0x9A then d ! 7 + 1 else d ! 7)"

section \<open>Example states\<close>

text \<open>
  \<open>state_of d\<close> is the state in which \<open>main\<close> enters its loop, with the register file
  \<open>d\<close> in place of the start-up values: the globals are zero, the leap year flag is the 0
  that \<open>_check_leap_year\<close> computes for the year 00, the timer compare register holds
  \<open>_second_div\<close> and the slave address is \<open>_I2C_addr\<close>. The peripheral registers are
  taken as 0.
\<close>

definition state_of :: "u8 list \<Rightarrow> rtc" where
  "state_of d =
    \<lparr>DATA_STORE = d, second_tick = 0, is_leap_year = 0, I2C_data_offset = 0,
     RTC_action_bits = 0x00, RTC_byte_l = 0, RTC_byte_h = 0, USI_I2C_slave_n_byte = 0,
     USI_I2C_slave_own_addr = 0x41, USI_I2C_slave_state = 0, USI_I2C_slave_RX_buff = 0,
     P1OUT = 0, TACCR0 = 2048, USICTL0 = 0, USICTL1 = 0, USICNT = 0, USISRL = 0\<rparr>"

text \<open>
  The register file at reset, the register file after \<open>_init_DS\<close> (2000-01-01 00:00:00,
  Saturday), and three instants used in the examples: 2000-02-29 12:00:00, a Tuesday,
  2004-02-29 12:00:00, a Sunday, and 2023-12-31 23:59:59, also a Sunday.
\<close>

definition zero_store :: "u8 list" where
  "zero_store =
    [0, 0, 0, 0, 0, 0, 0, 0,
     0, 0, 0, 0, 0, 0, 0, 0, 0, 0, 0, 0, 0, 0, 0, 0, 0, 0, 0, 0, 0, 0, 0]"

definition epoch_store :: "u8 list" where
  "epoch_store =
    [0x00, 0x00, 0x00, 0x06, 0x01, 0x01, 0x00, 0x20,
     0, 0, 0, 0, 0, 0, 0, 0, 0, 0, 0, 0, 0, 0, 0, 0, 0, 0, 0, 0, 0, 0, 0]"


definition leap_day_store :: "u8 list" where
  "leap_day_store =
    [0x00, 0x00, 0x12, 0x07, 0x29, 0x02, 0x04, 0x20,
     0, 0, 0, 0, 0, 0, 0, 0, 0, 0, 0, 0, 0, 0, 0, 0, 0, 0, 0, 0, 0, 0, 0]"

definition new_year_store :: "u8 list" where
  "new_year_store =
    [0x59, 0x59, 0x23, 0x07, 0x31, 0x12, 0x23, 0x20,
     0, 0, 0, 0, 0, 0, 0, 0, 0, 0, 0, 0, 0, 0, 0, 0, 0, 0, 0, 0, 0, 0, 0]"

text \<open>
  Wednesday 2023-06-14 14:30:00. Alarm 1 is set to 14:30 with the match-enable marker on
  any day, alarm 2 to the same time without the marker, alarm 3 to 14:30 with the marker
  on Wednesdays, alarm 4 to 14:30 with the marker on Thursdays.
\<close>

definition alarm_store :: "u8 list" where
  "alarm_store =
    [0x00, 0x30, 0x14, 0x03, 0x14, 0x06, 0x23, 0x20,
     0x30, 0x94, 0x80, 0x30, 0x14, 0x80, 0x30, 0x94, 0x04, 0x30, 0x94, 0x08,
     0, 0, 0, 0, 0, 0, 0, 0, 0, 0, 0]"

text \<open>
  A transaction in progress with the cursor at the flag register, and example values for
  the bits of the USI control registers.
\<close>

definition flag_write_state :: rtc where
  "flag_write_state = (state_of epoch_store)\<lparr>I2C_data_offset := 30, USI_I2C_slave_n_byte := 1\<rparr>"


section \<open>Helper lemmas\<close>

lemmas BIT_defs = BIT0_def BIT1_def BIT2_def BIT3_def BIT4_def BIT5_def BIT6_def BIT7_def

lemmas day_defs = day_mask_of_def MON_def TUE_def WED_def THU_def FRI_def SAT_def SUN_def

text \<open>The start-up sequence of \<open>main\<close> leaves the state \<open>state_of epoch_store\<close>.\<close>

lemma init_DS_epoch:
  "check_leap_year (init_DS (state_of zero_store)) = state_of epoch_store"
  by (simp add: init_DS_def check_leap_year_def state_of_def epoch_store_def zero_store_def
      Let_def)

text \<open>A property of all bytes is checked on the 256 of them.\<close>

lemma u8_all: "(\<forall>b::u8. P b) \<longleftrightarrow> (\<forall>n\<in>set [0..<256]. P (of_nat n))"
proof
  assume "\<forall>b. P b"
  then show "\<forall>n\<in>set [0..<256]. P (of_nat n)" by simp
next
  assume h: "\<forall>n\<in>set [0..<256]. P (of_nat n)"
  show "\<forall>b. P b"
  proof
    fix b :: u8
    have "unat b < 256" using unsigned_less [of b] by simp
    then have "unat b \<in> set [0..<256]" by simp
    then have "P (of_nat (unat b))" using h by blast
    then show "P b" by simp
  qed
qed

section \<open>The leap year test\<close>

lemma leap_byte_all:
  "\<forall>y::u8. leap_rule y \<longleftrightarrow>
     (if y AND 0x10 \<noteq> 0
      then push_bit 4 y = (0x20::u8) \<or> push_bit 4 y = (0x60::u8)
      else push_bit 4 y = (0x40::u8) \<or> push_bit 4 y = (0x80::u8))"
  unfolding u8_all leap_rule_def bcd_tens_def bcd_units_def by code_simp

lemma leap_byte:
  "leap_rule y \<longleftrightarrow>
     (if y AND 0x10 \<noteq> 0
      then push_bit 4 y = (0x20::u8) \<or> push_bit 4 y = (0x60::u8)
      else push_bit 4 y = (0x40::u8) \<or> push_bit 4 y = (0x80::u8))"
  using leap_byte_all by blast


text \<open>
  C2. \<open>_check_leap_year\<close> sets the leap year flag to 1 exactly when the year byte at
  offset 6 has an odd tens digit and the units digit 2 or 6, or an even tens digit and the
  units digit 4 or 8, and to 0 otherwise. Nothing else of the register file decides the
  flag: whatever byte \<open>c\<close> the century field at offset 7 is replaced with, the flag comes
  out the same. The register file is left as it is. Year 04 is leap, year 20 is not.
\<close>

theorem check_leap_year_rule:
  "is_leap_year (check_leap_year s) = (if leap_rule (DATA_STORE s ! 6) then 1 else 0) \<and>
   is_leap_year (check_leap_year (s\<lparr>DATA_STORE := (DATA_STORE s)[7 := c]\<rparr>)) =
     is_leap_year (check_leap_year s) \<and>
   DATA_STORE (check_leap_year s) = DATA_STORE s \<and>
   leap_rule 0x04 \<and> \<not> leap_rule 0x20"
  by (simp add: check_leap_year_def Let_def leap_byte)

theorem check_leap_year_rule_witness:
  "is_leap_year (check_leap_year (state_of leap_day_store)) = 1 \<and>
   is_leap_year (check_leap_year (state_of epoch_store)) = 0 \<and>
   is_leap_year (check_leap_year (state_of (leap_day_store[7 := 0x19]))) = 1"
  using check_leap_year_rule [of "state_of leap_day_store" "0x19"]
    check_leap_year_rule [of "state_of epoch_store" "0x19"]
  by (simp add: state_of_def leap_day_store_def epoch_store_def leap_byte)

section \<open>The tick scheduler\<close>

text \<open>
  C9. Every timer interrupt increments the tick counter, and what else it does depends on
  the resulting count \<open>t\<close> only: at 2 it raises the pending flag of the interrupt
  assertion (\<open>BIT4\<close>), at 6 that of the interrupt reset (\<open>BIT5\<close>), at 12 that of the
  time advance (\<open>BIT0\<close>); at 8 and at 16 it toggles the square-wave output \<open>BIT0\<close> of
  \<open>P1OUT\<close>; at 16 it resets the counter to 0. At every other count no flag is raised
  and no output changes. (The compare register is moved on by \<open>_second_div\<close> each time.)
\<close>

theorem Timer_A0_phases:
  "Timer_A0 s =
    (let t = second_tick s + 1
     in s\<lparr>second_tick := (if t = 16 then 0 else t),
          RTC_action_bits := RTC_action_bits s OR
            (if t = 2 then BIT4 else if t = 6 then BIT5 else if t = 12 then BIT0 else 0),
          P1OUT := P1OUT s XOR (if t = 8 \<or> t = 16 then BIT0 else 0),
          TACCR0 := TACCR0 s + second_div\<rparr>)"
  by (simp add: Timer_A0_def Let_def)

theorem Timer_A0_phases_witness:
  "Timer_A0 ((state_of epoch_store)\<lparr>second_tick := 15\<rparr>) =
     (state_of epoch_store)\<lparr>second_tick := 0, P1OUT := 0x01, TACCR0 := 4096\<rparr> \<and>
   Timer_A0 ((state_of epoch_store)\<lparr>second_tick := 11\<rparr>) =
     (state_of epoch_store)\<lparr>second_tick := 12, RTC_action_bits := 0x01, TACCR0 := 4096\<rparr> \<and>
   Timer_A0 ((state_of epoch_store)\<lparr>second_tick := 2\<rparr>) =
     (state_of epoch_store)\<lparr>second_tick := 3, TACCR0 := 4096\<rparr>"
  using Timer_A0_phases [of "(state_of epoch_store)\<lparr>second_tick := 15\<rparr>"]
    Timer_A0_phases [of "(state_of epoch_store)\<lparr>second_tick := 11\<rparr>"]
    Timer_A0_phases [of "(state_of epoch_store)\<lparr>second_tick := 2\<rparr>"]
  by (simp add: state_of_def Let_def BIT_defs second_div_def)

section \<open>The receive callback\<close>

lemma keep_flag_bit:
  "n < 8 \<Longrightarrow> keep_flag flags (2 ^ n) bd = bd AND (flags OR NOT (2 ^ n))"
  by (rule bit_word_eqI) (auto simp: keep_flag_def bit_simps and_exp_eq_0_iff_not_bit)

lemma keep_flag_BIT:
  "keep_flag flags BIT0 bd = bd AND (flags OR NOT BIT0)"
  "keep_flag flags BIT1 bd = bd AND (flags OR NOT BIT1)"
  "keep_flag flags BIT2 bd = bd AND (flags OR NOT BIT2)"
  "keep_flag flags BIT3 bd = bd AND (flags OR NOT BIT3)"
  "keep_flag flags BIT4 bd = bd AND (flags OR NOT BIT4)"
  "keep_flag flags BIT5 bd = bd AND (flags OR NOT BIT5)"
  using keep_flag_bit [of 0 flags bd] keep_flag_bit [of 1 flags bd] keep_flag_bit [of 2 flags bd]
    keep_flag_bit [of 3 flags bd] keep_flag_bit [of 4 flags bd] keep_flag_bit [of 5 flags bd]
  by (simp_all add: BIT_defs)

lemma and_or_chain:
  "(((((bd AND (f OR a0)) AND (f OR a1)) AND (f OR a2)) AND (f OR a3)) AND (f OR a4)) AND (f OR a5) =
   bd AND (f OR (a0 AND a1 AND a2 AND a3 AND a4 AND a5))" for bd :: u8
  by (rule bit_word_eqI) (auto simp: bit_and_iff bit_or_iff)

lemma not_flag_bits:
  "NOT BIT0 AND NOT BIT1 AND NOT BIT2 AND NOT BIT3 AND NOT BIT4 AND NOT BIT5 = (0xC0 :: u8)"
  by (simp add: BIT_defs)

lemma keep_flags_all:
  "keep_flag flags BIT5 (keep_flag flags BIT4 (keep_flag flags BIT3
     (keep_flag flags BIT2 (keep_flag flags BIT1 (keep_flag flags BIT0 bd))))) =
   bd AND (flags OR 0xC0)"
  unfolding keep_flag_BIT and_or_chain not_flag_bits ..

lemma flags_monotone:
  "k < 6 \<Longrightarrow> bit (bd AND (flags OR (0xC0 :: u8))) k \<Longrightarrow> bit flags k"
proof -
  assume k: "k < 6" and b: "bit (bd AND (flags OR (0xC0 :: u8))) k"
  have "\<not> bit (push_bit 6 w) k" for w :: u8 using k by (simp add: bit_push_bit_iff)
  from this [of 3] have "\<not> bit (0xC0 :: u8) k" by simp
  then show "bit flags k" using b by (auto simp: bit_and_iff bit_or_iff)
qed

lemma RX_callback_flags:
  assumes "30 < length (DATA_STORE s)" "USI_I2C_slave_n_byte s \<noteq> 0" "I2C_data_offset s = 30"
  shows "USI_I2C_slave_RX_callback b s =
    Inr (0, s\<lparr>DATA_STORE := (DATA_STORE s)[30 := b AND (DATA_STORE s ! 30 OR 0xC0)],
              I2C_data_offset := 31\<rparr>)"
  using assms by (simp add: USI_I2C_slave_RX_callback_def Let_def keep_flags_all)

text \<open>
  C1 as stated fails: the six guarded statements of case 30 cover \<open>BIT0\<close> to \<open>BIT5\<close>
  only. With the flag register at \<open>0x00\<close>, a host write of \<open>0x40\<close> to offset 30 stores
  \<open>0x40\<close>: bit 6 was 0 and is 1 afterwards.
\<close>

theorem flag_write_counterexample:
  "USI_I2C_slave_RX_callback 0x40 flag_write_state =
     Inr (0, flag_write_state\<lparr>DATA_STORE := epoch_store[30 := 0x40], I2C_data_offset := 31\<rparr>) \<and>
   DATA_STORE flag_write_state ! 30 = 0x00 \<and>
   epoch_store[30 := 0x40] ! 30 = 0x40"
  by (simp add: RX_callback_flags flag_write_state_def state_of_def epoch_store_def)

text \<open>
  C1, amended. A host write of the byte \<open>b\<close> to offset 30 stores \<open>b\<close> with each of the
  six alarm flag bits 0 to 5 cleared that is 0 in the flag register; bits 6 and 7 are
  stored as written. So none of the bits 0 to 5 of the stored byte is 1 where the flag
  register had 0 before the write.
\<close>

theorem flag_write_monotone:
  assumes "length (DATA_STORE s) = 31" "USI_I2C_slave_n_byte s \<noteq> 0" "I2C_data_offset s = 30"
  shows "USI_I2C_slave_RX_callback b s =
      Inr (0, s\<lparr>DATA_STORE := (DATA_STORE s)[30 := b AND (DATA_STORE s ! 30 OR 0xC0)],
                I2C_data_offset := 31\<rparr>) \<and>
    (\<forall>k<6. bit (b AND (DATA_STORE s ! 30 OR 0xC0)) k \<longrightarrow> bit (DATA_STORE s ! 30) k)"
  using assms flags_monotone by (auto simp: RX_callback_flags)

theorem flag_write_monotone_witness:
  "USI_I2C_slave_RX_callback 0x3F flag_write_state =
     Inr (0, flag_write_state\<lparr>DATA_STORE := epoch_store[30 := 0x00], I2C_data_offset := 31\<rparr>)"
  using flag_write_monotone [of flag_write_state "0x3F"]
  by (simp add: flag_write_state_def state_of_def epoch_store_def)

lemma RX_callback_first:
  "USI_I2C_slave_n_byte s = 0 \<Longrightarrow>
   USI_I2C_slave_RX_callback b s =
     Inr (0, s\<lparr>I2C_data_offset := b, USI_I2C_slave_n_byte := 1\<rparr>)"
  by (simp add: USI_I2C_slave_RX_callback_def)

lemma RX_callback_reserved:
  "USI_I2C_slave_n_byte s \<noteq> 0 \<Longrightarrow> I2C_data_offset s = 26 \<or> I2C_data_offset s = 27 \<Longrightarrow>
   USI_I2C_slave_RX_callback b s = Inr (0, s\<lparr>I2C_data_offset := I2C_data_offset s + 1\<rparr>)"
  by (auto simp: USI_I2C_slave_RX_callback_def)

lemma RX_callback_store:
  "USI_I2C_slave_n_byte s \<noteq> 0 \<Longrightarrow> unat (I2C_data_offset s) < length (DATA_STORE s) \<Longrightarrow>
   I2C_data_offset s \<noteq> 26 \<Longrightarrow> I2C_data_offset s \<noteq> 27 \<Longrightarrow> I2C_data_offset s \<noteq> 30 \<Longrightarrow>
   USI_I2C_slave_RX_callback b s =
     Inr (0, s\<lparr>DATA_STORE := (DATA_STORE s)[unat (I2C_data_offset s) := b],
               I2C_data_offset := I2C_data_offset s + 1\<rparr>)"
  by (simp add: USI_I2C_slave_RX_callback_def store_at_def)

lemma unat_26_27_30:
  "31 \<le> unat (c :: u8) \<Longrightarrow> c \<noteq> 26 \<and> c \<noteq> 27 \<and> c \<noteq> 30"
  by auto

lemma RX_callback_outside:
  "USI_I2C_slave_n_byte s \<noteq> 0 \<Longrightarrow> length (DATA_STORE s) = 31 \<Longrightarrow>
   31 \<le> unat (I2C_data_offset s) \<Longrightarrow>
   USI_I2C_slave_RX_callback b s = Inl Out_Of_Bounds"
  using unat_26_27_30 [of "I2C_data_offset s"]
  by (simp add: USI_I2C_slave_RX_callback_def store_at_def)






lemma receive_bytes_data:
  "USI_I2C_slave_n_byte s \<noteq> 0 \<Longrightarrow> length (DATA_STORE s) = 31 \<Longrightarrow>
   (if datas \<noteq> [] \<and> 31 < unat (I2C_data_offset s) + length datas
    then receive_bytes datas s = Inl Out_Of_Bounds
    else \<exists>s'. receive_bytes datas s = Inr s' \<and> length (DATA_STORE s') = 31)"
proof (induction datas arbitrary: s)
  case Nil
  then show ?case by simp
next
  case (Cons b bs)
  let ?c = "I2C_data_offset s"
  show ?case
  proof (cases "31 \<le> unat ?c")
    case True
    then show ?thesis using Cons.prems by (simp add: RX_callback_outside)
  next
    case False
    then have c: "unat ?c < 31" by simp
    then have c1: "unat (?c + 1) = unat ?c + 1" by (simp add: unat_word_ariths)
    obtain s1 where s1: "USI_I2C_slave_RX_callback b s = Inr (0, s1)"
      and n1: "USI_I2C_slave_n_byte s1 \<noteq> 0" and l1: "length (DATA_STORE s1) = 31"
      and o1: "I2C_data_offset s1 = ?c + 1"
    proof (cases "?c = 26 \<or> ?c = 27")
      case True
      then show ?thesis using that Cons.prems by (simp add: RX_callback_reserved)
    next
      case nr: False
      show ?thesis
      proof (cases "?c = 30")
        case True
        then show ?thesis using that Cons.prems by (simp add: RX_callback_flags)
      next
        case False
        then show ?thesis using that Cons.prems nr c by (simp add: RX_callback_store)
      qed
    qed
    from Cons.IH [OF n1 l1] show ?thesis using s1 o1 c1 c by (auto split: if_splits)
  qed
qed

text \<open>
  C10. The callback stores at the cursor without a bounds check. For a transaction of an
  offset byte \<open>off\<close> followed by the data bytes \<open>datas\<close>, started with byte count 0:
  if \<open>off\<close> plus the number of data bytes is at most 31, every store lands inside the 31
  bytes and the transaction returns a state; if there is a data byte and the sum exceeds
  31, a store falls outside the register file. In particular an offset byte of 31 or more
  followed by one data byte \<open>v\<close> does.
\<close>

theorem receive_bytes_bounds:
  assumes "length (DATA_STORE s) = 31" "USI_I2C_slave_n_byte s = 0"
  shows "(unat off + length datas \<le> 31 \<longrightarrow>
      (\<exists>s'. receive_bytes (off # datas) s = Inr s' \<and> length (DATA_STORE s') = 31)) \<and>
    (datas \<noteq> [] \<and> 31 < unat off + length datas \<longrightarrow>
      receive_bytes (off # datas) s = Inl Out_Of_Bounds) \<and>
    (31 \<le> unat off \<longrightarrow> receive_bytes [off, v] s = Inl Out_Of_Bounds)"
proof -
  let ?s1 = "s\<lparr>I2C_data_offset := off, USI_I2C_slave_n_byte := 1\<rparr>"
  have r: "receive_bytes (off # ds) s = receive_bytes ds ?s1" for ds
    using assms by (simp add: RX_callback_first)
  have "USI_I2C_slave_n_byte ?s1 \<noteq> 0" "length (DATA_STORE ?s1) = 31" using assms by simp_all
  from receive_bytes_data [OF this] have
    d: "(if ds \<noteq> [] \<and> 31 < unat off + length ds
         then receive_bytes ds ?s1 = Inl Out_Of_Bounds
         else \<exists>s'. receive_bytes ds ?s1 = Inr s' \<and> length (DATA_STORE s') = 31)" for ds
    by simp
  show ?thesis unfolding r using d [of datas] d [of "[v]"]
    by (auto split: if_splits simp del: receive_bytes.simps)
qed

theorem receive_bytes_bounds_witness:
  "(\<exists>s'. receive_bytes [30, 0x3F] (state_of epoch_store) = Inr s' \<and> length (DATA_STORE s') = 31) \<and>
   receive_bytes [30, 0x3F, 0x00] (state_of epoch_store) = Inl Out_Of_Bounds \<and>
   receive_bytes [31, 0x00] (state_of epoch_store) = Inl Out_Of_Bounds"
  using receive_bytes_bounds [of "state_of epoch_store" 30 "[0x3F]" 0]
    receive_bytes_bounds [of "state_of epoch_store" 30 "[0x3F, 0x00]" 0]
    receive_bytes_bounds [of "state_of epoch_store" 31 "[0x00]" 0]
  by (simp add: state_of_def epoch_store_def)

section \<open>The alarm engine\<close>

lemma alarm_matches_flags:
  "a + 2 < 30 \<Longrightarrow> alarm_matches (d[30 := x]) m a = alarm_matches d m a"
  by (simp add: alarm_matches_def)

lemma BIT_pow:
  "BIT0 = 2 ^ 0" "BIT1 = 2 ^ 1" "BIT2 = 2 ^ 2" "BIT3 = 2 ^ 3"
  "BIT4 = 2 ^ 4" "BIT5 = 2 ^ 5" "BIT6 = 2 ^ 6" "BIT7 = 2 ^ 7"
  by (simp_all add: BIT_defs)

lemma check_alarms_store:
  assumes "length (DATA_STORE s) = 31"
  shows "DATA_STORE (check_alarms s) =
    (let d = DATA_STORE s; m = day_mask_of (d ! 3)
     in d[30 := d ! 30 OR (if alarm_matches d m 8 then BIT0 else 0)
                       OR (if alarm_matches d m 11 then BIT1 else 0)
                       OR (if alarm_matches d m 14 then BIT2 else 0)
                       OR (if alarm_matches d m 17 then BIT3 else 0)
                       OR (if alarm_matches d m 20 then BIT4 else 0)
                       OR (if alarm_matches d m 23 then BIT5 else 0)])"
  using assms
  by (simp add: check_alarms_def raise_flag_def Let_def alarm_matches_flags ac_simps)

lemma flag_bits:
  fixes x :: u8
  assumes "k < 6"
  shows "bit (x OR (if m0 then BIT0 else 0) OR (if m1 then BIT1 else 0)
           OR (if m2 then BIT2 else 0) OR (if m3 then BIT3 else 0)
           OR (if m4 then BIT4 else 0) OR (if m5 then BIT5 else 0)) k \<longleftrightarrow>
         bit x k \<or> [m0, m1, m2, m3, m4, m5] ! k"
proof -
  from assms have "k = 0 \<or> k = 1 \<or> k = 2 \<or> k = 3 \<or> k = 4 \<or> k = 5" by arith
  then show ?thesis
    by (elim disjE) (simp_all add: bit_or_iff BIT_pow bit_exp_iff del: bit_0)
qed

lemma marker_clear_all: "\<forall>h::u8. bit h 7 \<or> unat h < 128"
  unfolding u8_all by code_simp

lemma no_match_without_marker:
  "\<not> bit (h :: u8) 7 \<Longrightarrow> unat (live :: u8) + 0x80 \<noteq> unat h"
  using marker_clear_all [rule_format, of h] by simp

text \<open>
  C7. For each of the six alarms (\<open>k\<close> from 0 to 5, bytes \<open>8 + 3k\<close> to \<open>10 + 3k\<close>)
  the flag bit \<open>k\<close> is set after \<open>_check_alarms\<close> exactly when it was set before or
  the live minute equals the alarm minute, the live hour plus \<open>0x80\<close> equals the stored
  alarm hour, and the day mask has its top bit or the bit of the live weekday. For a live
  hour in BCD from \<open>0x00\<close> to \<open>0x23\<close> and a stored alarm hour with bit 7 clear the
  alarm does not match and its flag bit is as it was.
\<close>

theorem check_alarms_marker:
  assumes "length (DATA_STORE s) = 31" "k < 6"
  shows "(bit (DATA_STORE (check_alarms s) ! 30) k \<longleftrightarrow>
       bit (DATA_STORE s ! 30) k \<or>
       DATA_STORE s ! 1 = DATA_STORE s ! (8 + 3 * k) \<and>
       unat (DATA_STORE s ! 2) + 0x80 = unat (DATA_STORE s ! (9 + 3 * k)) \<and>
       (DATA_STORE s ! (10 + 3 * k) AND 0x80 \<noteq> 0 \<or>
        DATA_STORE s ! (10 + 3 * k) AND day_mask_of (DATA_STORE s ! 3) \<noteq> 0)) \<and>
    (valid_bcd (DATA_STORE s ! 2) \<and> DATA_STORE s ! 2 \<le> 0x23 \<and>
     \<not> bit (DATA_STORE s ! (9 + 3 * k)) 7 \<longrightarrow>
       \<not> alarm_matches (DATA_STORE s) (day_mask_of (DATA_STORE s ! 3)) (8 + 3 * k) \<and>
       (bit (DATA_STORE (check_alarms s) ! 30) k \<longleftrightarrow> bit (DATA_STORE s ! 30) k))"
proof -
  let ?d = "DATA_STORE s"
  let ?m = "day_mask_of (?d ! 3)"
  have idx: "[alarm_matches ?d ?m 8, alarm_matches ?d ?m 11, alarm_matches ?d ?m 14,
      alarm_matches ?d ?m 17, alarm_matches ?d ?m 20, alarm_matches ?d ?m 23] ! k =
    alarm_matches ?d ?m (8 + 3 * k)"
  proof -
    from assms(2) have "k = 0 \<or> k = 1 \<or> k = 2 \<or> k = 3 \<or> k = 4 \<or> k = 5" by arith
    then show ?thesis by (elim disjE) simp_all
  qed
  have flag: "bit (DATA_STORE (check_alarms s) ! 30) k \<longleftrightarrow>
      bit (?d ! 30) k \<or> alarm_matches ?d ?m (8 + 3 * k)"
    using assms by (simp add: check_alarms_store Let_def flag_bits idx)
  have m: "alarm_matches ?d ?m (8 + 3 * k) \<longleftrightarrow>
      ?d ! 1 = ?d ! (8 + 3 * k) \<and>
      unat (?d ! 2) + 0x80 = unat (?d ! (9 + 3 * k)) \<and>
      (?d ! (10 + 3 * k) AND 0x80 \<noteq> 0 \<or> ?d ! (10 + 3 * k) AND ?m \<noteq> 0)"
    by (simp add: alarm_matches_def add.commute add.left_commute)
  have n: "\<not> alarm_matches ?d ?m (8 + 3 * k)" if "\<not> bit (?d ! (9 + 3 * k)) 7"
    using no_match_without_marker [OF that] by (simp add: m)
  show ?thesis using flag m n by blast
qed

theorem check_alarms_marker_witness:
  "bit (DATA_STORE (check_alarms (state_of alarm_store)) ! 30) 0 \<and>
   \<not> bit (DATA_STORE (check_alarms (state_of alarm_store)) ! 30) 1 \<and>
   bit (DATA_STORE (check_alarms (state_of alarm_store)) ! 30) 2 \<and>
   \<not> bit (DATA_STORE (check_alarms (state_of alarm_store)) ! 30) 3"
  using check_alarms_marker [of "state_of alarm_store" 0]
    check_alarms_marker [of "state_of alarm_store" 1]
    check_alarms_marker [of "state_of alarm_store" 2]
    check_alarms_marker [of "state_of alarm_store" 3]
  by (simp add: state_of_def alarm_store_def valid_bcd_def day_defs BIT_defs)

section \<open>The blocks of the time increment\<close>

lemma time_carry_store:
  "DATA_STORE (time_carry i s) = (DATA_STORE s)[i := carry_byte (DATA_STORE s ! i)]"
  by (simp add: time_carry_def carry_byte_def Let_def)

lemma time_carry_others:
  "is_leap_year (time_carry i s) = is_leap_year s"
  "RTC_action_bits (time_carry i s) = RTC_action_bits s"
  by (simp_all add: time_carry_def Let_def)

lemma second_store:
  "length (DATA_STORE s) = 31 \<Longrightarrow>
   DATA_STORE (time_increment_second s) =
     (if DATA_STORE s ! 0 + 1 = 0x5A
      then (DATA_STORE s)[0 := 0x00, 1 := DATA_STORE s ! 1 + 1]
      else (DATA_STORE s)[0 := carry_byte (DATA_STORE s ! 0 + 1)])"
  by (simp add: time_increment_second_def Let_def time_carry_store)

lemma second_others:
  "is_leap_year (time_increment_second s) = is_leap_year s"
  "length (DATA_STORE s) = 31 \<Longrightarrow> RTC_action_bits (time_increment_second s) =
     RTC_action_bits s OR (if DATA_STORE s ! 0 + 1 = 0x5A then BIT3 else 0)"
  by (simp_all add: time_increment_second_def Let_def time_carry_others)

lemma minute_store:
  "length (DATA_STORE s) = 31 \<Longrightarrow>
   DATA_STORE (time_increment_minute s) =
     (if DATA_STORE s ! 1 = 0x5A
      then (DATA_STORE s)[1 := 0x00, 2 := DATA_STORE s ! 2 + 1]
      else (DATA_STORE s)[1 := carry_byte (DATA_STORE s ! 1)])"
  by (simp add: time_increment_minute_def Let_def time_carry_store)

lemma minute_others:
  "is_leap_year (time_increment_minute s) = is_leap_year s"
  "RTC_action_bits (time_increment_minute s) = RTC_action_bits s"
  by (simp_all add: time_increment_minute_def Let_def time_carry_others)

lemma hour_store:
  "length (DATA_STORE s) = 31 \<Longrightarrow>
   DATA_STORE (time_increment_hour s) =
     (if DATA_STORE s ! 2 = 0x24
      then (DATA_STORE s)[2 := 0x00, 3 := DATA_STORE s ! 3 + 1, 4 := DATA_STORE s ! 4 + 1]
      else (DATA_STORE s)[2 := carry_byte (DATA_STORE s ! 2)])"
  by (simp add: time_increment_hour_def Let_def time_carry_store)

lemma hour_others:
  "is_leap_year (time_increment_hour s) = is_leap_year s"
  "RTC_action_bits (time_increment_hour s) = RTC_action_bits s"
  by (simp_all add: time_increment_hour_def Let_def time_carry_others)

lemma day_store:
  "DATA_STORE (time_increment_day s) =
     (if DATA_STORE s ! 3 = 0x08 then (DATA_STORE s)[3 := 0x01] else DATA_STORE s)"
  by (simp add: time_increment_day_def)

lemma day_others:
  "is_leap_year (time_increment_day s) = is_leap_year s"
  "RTC_action_bits (time_increment_day s) = RTC_action_bits s"
  by (simp_all add: time_increment_day_def)

lemma next_month_store:
  "length (DATA_STORE s) = 31 \<Longrightarrow>
   DATA_STORE (next_month s) = (DATA_STORE s)[4 := 0x01, 5 := DATA_STORE s ! 5 + 1]"
  by (simp add: next_month_def Let_def)

lemma date_store:
  "length (DATA_STORE s) = 31 \<Longrightarrow>
   DATA_STORE (time_increment_date s) =
     (if date_rolls (DATA_STORE s ! 4) (DATA_STORE s ! 5) (is_leap_year s)
      then (DATA_STORE s)[4 := 0x01, 5 := DATA_STORE s ! 5 + 1]
      else if DATA_STORE s ! 4 = 0x29 \<or> DATA_STORE s ! 4 = 0x30 \<or>
              DATA_STORE s ! 4 = 0x31 \<or> DATA_STORE s ! 4 = 0x32
      then DATA_STORE s
      else (DATA_STORE s)[4 := carry_byte (DATA_STORE s ! 4)])"
  by (simp add: time_increment_date_def date_rolls_def next_month_store time_carry_store)

lemma date_others:
  "is_leap_year (time_increment_date s) = is_leap_year s"
  "RTC_action_bits (time_increment_date s) = RTC_action_bits s"
  by (simp_all add: time_increment_date_def next_month_def Let_def time_carry_others)

lemma month_store:
  "length (DATA_STORE s) = 31 \<Longrightarrow>
   DATA_STORE (time_increment_month s) =
     (if DATA_STORE s ! 5 = 0x13
      then (DATA_STORE s)[5 := 0x01, 6 := DATA_STORE s ! 6 + 1]
      else (DATA_STORE s)[5 := carry_byte (DATA_STORE s ! 5)])"
  by (simp add: time_increment_month_def Let_def time_carry_store)

lemma month_others:
  "RTC_action_bits (time_increment_month s) =
     RTC_action_bits s OR (if DATA_STORE s ! 5 = 0x13 then BIT2 else 0)"
  by (simp_all add: time_increment_month_def Let_def time_carry_others)

lemma year_store:
  "length (DATA_STORE s) = 31 \<Longrightarrow>
   DATA_STORE (time_increment_year s) =
     (if DATA_STORE s ! 6 = 0x9A
      then (DATA_STORE s)[6 := 0x00, 7 := DATA_STORE s ! 7 + 1]
      else (DATA_STORE s)[6 := carry_byte (DATA_STORE s ! 6)])"
  by (simp add: time_increment_year_def Let_def time_carry_store)

lemma year_others:
  "RTC_action_bits (time_increment_year s) = RTC_action_bits s"
  by (simp_all add: time_increment_year_def Let_def time_carry_others)

lemma leap_store:
  "DATA_STORE (time_increment_leap s) = DATA_STORE s"
  by (simp add: time_increment_leap_def check_leap_year_def Let_def)

lemma and_not_absorb: "a AND NOT b = a" if "a AND b = 0" for a b :: u8
proof (rule bit_word_eqI)
  fix n assume n: "n < LENGTH(8)"
  from that have "bit (a AND b) n = bit (0 :: u8) n" by simp
  then have "\<not> (bit a n \<and> bit b n)" by (simp add: bit_and_iff)
  then show "bit (a AND NOT b) n = bit a n" using n by (auto simp: bit_and_iff bit_not_iff)
qed

lemma leap_others:
  "RTC_action_bits (time_increment_leap s) = RTC_action_bits s AND NOT BIT2"
  by (simp add: time_increment_leap_def check_leap_year_def Let_def and_not_absorb)

lemma century_store:
  "DATA_STORE (time_increment_century s) =
     (if DATA_STORE s ! 7 = 0x9A
      then (DATA_STORE s)[7 := 0x00]
      else (DATA_STORE s)[7 := carry_byte (DATA_STORE s ! 7)])"
  by (simp add: time_increment_century_def Let_def time_carry_store)

lemma century_others:
  "RTC_action_bits (time_increment_century s) = RTC_action_bits s"
  by (simp_all add: time_increment_century_def Let_def time_carry_others)

lemma carry_byte_special:
  "carry_byte 0x29 = 0x29" "carry_byte 0x30 = 0x30" "carry_byte 0x31 = 0x31"
  "carry_byte 0x32 = 0x32"
  by (simp_all add: carry_byte_def)

lemma second_nth:
  assumes "length (DATA_STORE s) = 31"
  shows "length (DATA_STORE (time_increment_second s)) = 31"
    and "DATA_STORE (time_increment_second s) ! 0 =
      (if DATA_STORE s ! 0 + 1 = 0x5A then 0x00 else carry_byte (DATA_STORE s ! 0 + 1))"
    and "DATA_STORE (time_increment_second s) ! 1 = minute_entered (DATA_STORE s)"
    and "2 \<le> i \<Longrightarrow> DATA_STORE (time_increment_second s) ! i = DATA_STORE s ! i"
  using assms by (auto simp: second_store minute_entered_def)

lemma minute_nth:
  assumes "length (DATA_STORE s) = 31"
  shows "length (DATA_STORE (time_increment_minute s)) = 31"
    and "DATA_STORE (time_increment_minute s) ! 1 =
      (if DATA_STORE s ! 1 = 0x5A then 0x00 else carry_byte (DATA_STORE s ! 1))"
    and "DATA_STORE (time_increment_minute s) ! 2 =
      (if DATA_STORE s ! 1 = 0x5A then DATA_STORE s ! 2 + 1 else DATA_STORE s ! 2)"
    and "i \<noteq> 1 \<Longrightarrow> i \<noteq> 2 \<Longrightarrow> DATA_STORE (time_increment_minute s) ! i = DATA_STORE s ! i"
  using assms by (auto simp: minute_store)

lemma hour_nth:
  assumes "length (DATA_STORE s) = 31"
  shows "length (DATA_STORE (time_increment_hour s)) = 31"
    and "DATA_STORE (time_increment_hour s) ! 2 =
      (if DATA_STORE s ! 2 = 0x24 then 0x00 else carry_byte (DATA_STORE s ! 2))"
    and "DATA_STORE (time_increment_hour s) ! 3 =
      (if DATA_STORE s ! 2 = 0x24 then DATA_STORE s ! 3 + 1 else DATA_STORE s ! 3)"
    and "DATA_STORE (time_increment_hour s) ! 4 =
      (if DATA_STORE s ! 2 = 0x24 then DATA_STORE s ! 4 + 1 else DATA_STORE s ! 4)"
    and "i \<noteq> 2 \<Longrightarrow> i \<noteq> 3 \<Longrightarrow> i \<noteq> 4 \<Longrightarrow>
      DATA_STORE (time_increment_hour s) ! i = DATA_STORE s ! i"
  using assms by (auto simp: hour_store)

lemma day_nth:
  assumes "length (DATA_STORE s) = 31"
  shows "length (DATA_STORE (time_increment_day s)) = 31"
    and "DATA_STORE (time_increment_day s) ! 3 =
      (if DATA_STORE s ! 3 = 0x08 then 0x01 else DATA_STORE s ! 3)"
    and "i \<noteq> 3 \<Longrightarrow> DATA_STORE (time_increment_day s) ! i = DATA_STORE s ! i"
  using assms by (auto simp: day_store)

lemma date_nth:
  assumes "length (DATA_STORE s) = 31"
  shows "length (DATA_STORE (time_increment_date s)) = 31"
    and "DATA_STORE (time_increment_date s) ! 4 =
      (if date_rolls (DATA_STORE s ! 4) (DATA_STORE s ! 5) (is_leap_year s) then 0x01
       else carry_byte (DATA_STORE s ! 4))"
    and "DATA_STORE (time_increment_date s) ! 5 =
      (if date_rolls (DATA_STORE s ! 4) (DATA_STORE s ! 5) (is_leap_year s)
       then DATA_STORE s ! 5 + 1 else DATA_STORE s ! 5)"
    and "i \<noteq> 4 \<Longrightarrow> i \<noteq> 5 \<Longrightarrow> DATA_STORE (time_increment_date s) ! i = DATA_STORE s ! i"
  using assms by (auto simp: date_store carry_byte_special)

lemma month_nth:
  assumes "length (DATA_STORE s) = 31"
  shows "length (DATA_STORE (time_increment_month s)) = 31"
    and "DATA_STORE (time_increment_month s) ! 5 =
      (if DATA_STORE s ! 5 = 0x13 then 0x01 else carry_byte (DATA_STORE s ! 5))"
    and "DATA_STORE (time_increment_month s) ! 6 =
      (if DATA_STORE s ! 5 = 0x13 then DATA_STORE s ! 6 + 1 else DATA_STORE s ! 6)"
    and "i \<noteq> 5 \<Longrightarrow> i \<noteq> 6 \<Longrightarrow> DATA_STORE (time_increment_month s) ! i = DATA_STORE s ! i"
  using assms by (auto simp: month_store)

lemma year_nth:
  assumes "length (DATA_STORE s) = 31"
  shows "length (DATA_STORE (time_increment_year s)) = 31"
    and "DATA_STORE (time_increment_year s) ! 6 =
      (if DATA_STORE s ! 6 = 0x9A then 0x00 else carry_byte (DATA_STORE s ! 6))"
    and "DATA_STORE (time_increment_year s) ! 7 =
      (if DATA_STORE s ! 6 = 0x9A then DATA_STORE s ! 7 + 1 else DATA_STORE s ! 7)"
    and "i \<noteq> 6 \<Longrightarrow> i \<noteq> 7 \<Longrightarrow> DATA_STORE (time_increment_year s) ! i = DATA_STORE s ! i"
  using assms by (auto simp: year_store)

lemma century_nth:
  assumes "length (DATA_STORE s) = 31"
  shows "length (DATA_STORE (time_increment_century s)) = 31"
    and "DATA_STORE (time_increment_century s) ! 7 =
      (if DATA_STORE s ! 7 = 0x9A then 0x00 else carry_byte (DATA_STORE s ! 7))"
    and "i \<noteq> 7 \<Longrightarrow> DATA_STORE (time_increment_century s) ! i = DATA_STORE s ! i"
  using assms by (auto simp: century_store)

text \<open>The state in which the switch on the date is entered.\<close>

lemma to_day_nth:
  assumes len: "length (DATA_STORE s) = 31"
  shows "length (DATA_STORE (time_increment_to_day s)) = 31"
    and "DATA_STORE (time_increment_to_day s) ! 0 =
      (if DATA_STORE s ! 0 + 1 = 0x5A then 0x00 else carry_byte (DATA_STORE s ! 0 + 1))"
    and "DATA_STORE (time_increment_to_day s) ! 1 =
      (if minute_entered (DATA_STORE s) = 0x5A then 0x00
       else carry_byte (minute_entered (DATA_STORE s)))"
    and "DATA_STORE (time_increment_to_day s) ! 2 =
      (if hour_entered (DATA_STORE s) = 0x24 then 0x00
       else carry_byte (hour_entered (DATA_STORE s)))"
    and "DATA_STORE (time_increment_to_day s) ! 3 =
      (if day_entered (DATA_STORE s) = 0x08 then 0x01 else day_entered (DATA_STORE s))"
    and "DATA_STORE (time_increment_to_day s) ! 4 = date_entered (DATA_STORE s)"
    and "5 \<le> i \<Longrightarrow> DATA_STORE (time_increment_to_day s) ! i = DATA_STORE s ! i"
    and "is_leap_year (time_increment_to_day s) = is_leap_year s"
    and "RTC_action_bits (time_increment_to_day s) =
      RTC_action_bits s OR (if DATA_STORE s ! 0 + 1 = 0x5A then BIT3 else 0)"
proof -
  let ?s1 = "time_increment_second s"
  let ?s2 = "time_increment_minute ?s1"
  let ?s3 = "time_increment_hour ?s2"
  note n1 = second_nth [OF len]
  note n2 = minute_nth [OF n1(1)]
  note n3 = hour_nth [OF n2(1)]
  note n4 = day_nth [OF n3(1)]
  have s4: "time_increment_to_day s = time_increment_day ?s3"
    by (simp add: time_increment_to_day_def del: One_nat_def)
  show "length (DATA_STORE (time_increment_to_day s)) = 31"
    unfolding s4 by (rule n4(1))
  show "DATA_STORE (time_increment_to_day s) ! 0 =
      (if DATA_STORE s ! 0 + 1 = 0x5A then 0x00 else carry_byte (DATA_STORE s ! 0 + 1))"
    unfolding s4 by (simp add: n4(3) n3(5) n2(4) n1(2) del: One_nat_def)
  have m: "DATA_STORE ?s1 ! 1 = minute_entered (DATA_STORE s)" by (rule n1(3))
  show "DATA_STORE (time_increment_to_day s) ! 1 =
      (if minute_entered (DATA_STORE s) = 0x5A then 0x00
       else carry_byte (minute_entered (DATA_STORE s)))"
    unfolding s4 by (simp add: n4(3) n3(5) n2(2) m del: One_nat_def)
  have h: "DATA_STORE ?s2 ! 2 = hour_entered (DATA_STORE s)"
    by (simp add: n2(3) m n1(4) hour_entered_def del: One_nat_def)
  show "DATA_STORE (time_increment_to_day s) ! 2 =
      (if hour_entered (DATA_STORE s) = 0x24 then 0x00
       else carry_byte (hour_entered (DATA_STORE s)))"
    unfolding s4 by (simp add: n4(3) n3(2) h del: One_nat_def)
  have d: "DATA_STORE ?s3 ! 3 = day_entered (DATA_STORE s)"
    by (simp add: n3(3) h n2(4) n1(4) day_entered_def del: One_nat_def)
  show "DATA_STORE (time_increment_to_day s) ! 3 =
      (if day_entered (DATA_STORE s) = 0x08 then 0x01 else day_entered (DATA_STORE s))"
    unfolding s4 by (simp add: n4(2) d del: One_nat_def)
  show "DATA_STORE (time_increment_to_day s) ! 4 = date_entered (DATA_STORE s)"
    unfolding s4 by (simp add: n4(3) n3(4) h n2(4) n1(4) date_entered_def del: One_nat_def)
  show "DATA_STORE (time_increment_to_day s) ! i = DATA_STORE s ! i" if "5 \<le> i"
    unfolding s4 using that by (simp add: n4(3) n3(5) n2(4) n1(4) del: One_nat_def)
  show "is_leap_year (time_increment_to_day s) = is_leap_year s"
    unfolding s4 by (simp add: day_others hour_others minute_others second_others del: One_nat_def)
  show "RTC_action_bits (time_increment_to_day s) =
      RTC_action_bits s OR (if DATA_STORE s ! 0 + 1 = 0x5A then BIT3 else 0)"
    unfolding s4 using len by (simp add: day_others hour_others minute_others second_others del: One_nat_def)
qed

lemma time_increment_nth:
  assumes len: "length (DATA_STORE s) = 31"
  shows "length (DATA_STORE (time_increment s)) = 31"
    and "DATA_STORE (time_increment s) ! 0 =
      (if DATA_STORE s ! 0 + 1 = 0x5A then 0x00 else carry_byte (DATA_STORE s ! 0 + 1))"
    and "DATA_STORE (time_increment s) ! 1 =
      (if minute_entered (DATA_STORE s) = 0x5A then 0x00
       else carry_byte (minute_entered (DATA_STORE s)))"
    and "DATA_STORE (time_increment s) ! 2 =
      (if hour_entered (DATA_STORE s) = 0x24 then 0x00
       else carry_byte (hour_entered (DATA_STORE s)))"
    and "DATA_STORE (time_increment s) ! 3 =
      (if day_entered (DATA_STORE s) = 0x08 then 0x01 else day_entered (DATA_STORE s))"
    and "DATA_STORE (time_increment s) ! 4 =
      (if date_rolls (date_entered (DATA_STORE s)) (DATA_STORE s ! 5) (is_leap_year s) then 0x01
       else carry_byte (date_entered (DATA_STORE s)))"
    and "DATA_STORE (time_increment s) ! 5 =
      (if month_entered (DATA_STORE s) (is_leap_year s) = 0x13 then 0x01
       else carry_byte (month_entered (DATA_STORE s) (is_leap_year s)))"
    and "DATA_STORE (time_increment s) ! 6 =
      (if year_entered (DATA_STORE s) (is_leap_year s) = 0x9A then 0x00
       else carry_byte (year_entered (DATA_STORE s) (is_leap_year s)))"
    and "DATA_STORE (time_increment s) ! 7 =
      (if century_entered (DATA_STORE s) (is_leap_year s) = 0x9A then 0x00
       else carry_byte (century_entered (DATA_STORE s) (is_leap_year s)))"
    and "8 \<le> i \<Longrightarrow> DATA_STORE (time_increment s) ! i = DATA_STORE s ! i"
    and "RTC_action_bits (time_increment s) =
      (RTC_action_bits s OR (if DATA_STORE s ! 0 + 1 = 0x5A then BIT3 else 0)) AND NOT BIT2"
proof -
  let ?d = "DATA_STORE s"
  let ?s4 = "time_increment_to_day s"
  let ?s5 = "time_increment_date ?s4"
  let ?s6 = "time_increment_month ?s5"
  let ?s7 = "time_increment_year ?s6"
  let ?s8 = "time_increment_leap ?s7"
  note n4 = to_day_nth [OF len]
  note n5 = date_nth [OF n4(1)]
  note n6 = month_nth [OF n5(1)]
  note n7 = year_nth [OF n6(1)]
  have l8: "length (DATA_STORE ?s8) = 31" by (simp add: leap_store n7(1) del: One_nat_def)
  note n9 = century_nth [OF l8]
  have s9: "time_increment s = time_increment_century ?s8"
    by (simp add: time_increment_def del: One_nat_def)
  show "length (DATA_STORE (time_increment s)) = 31"
    unfolding s9 by (rule n9(1))
  show "DATA_STORE (time_increment s) ! 0 =
      (if ?d ! 0 + 1 = 0x5A then 0x00 else carry_byte (?d ! 0 + 1))"
    unfolding s9 by (simp add: n9(3) leap_store n7(4) n6(4) n5(4) n4(2) del: One_nat_def)
  show "DATA_STORE (time_increment s) ! 1 =
      (if minute_entered ?d = 0x5A then 0x00 else carry_byte (minute_entered ?d))"
    unfolding s9 by (simp add: n9(3) leap_store n7(4) n6(4) n5(4) n4(3) del: One_nat_def)
  show "DATA_STORE (time_increment s) ! 2 =
      (if hour_entered ?d = 0x24 then 0x00 else carry_byte (hour_entered ?d))"
    unfolding s9 by (simp add: n9(3) leap_store n7(4) n6(4) n5(4) n4(4) del: One_nat_def)
  show "DATA_STORE (time_increment s) ! 3 =
      (if day_entered ?d = 0x08 then 0x01 else day_entered ?d)"
    unfolding s9 by (simp add: n9(3) leap_store n7(4) n6(4) n5(4) n4(5) del: One_nat_def)
  have r: "date_rolls (DATA_STORE ?s4 ! 4) (DATA_STORE ?s4 ! 5) (is_leap_year ?s4) =
      date_rolls (date_entered ?d) (?d ! 5) (is_leap_year s)"
    by (simp add: n4(6) n4(7) n4(8) del: One_nat_def)
  show "DATA_STORE (time_increment s) ! 4 =
      (if date_rolls (date_entered ?d) (?d ! 5) (is_leap_year s) then 0x01
       else carry_byte (date_entered ?d))"
    unfolding s9 by (simp add: n9(3) leap_store n7(4) n6(4) n5(2) n4(6) n4(7) n4(8) del: One_nat_def)
  have m: "DATA_STORE ?s5 ! 5 = month_entered ?d (is_leap_year s)"
    by (simp add: n5(3) n4(6) n4(7) n4(8) month_entered_def del: One_nat_def)
  show "DATA_STORE (time_increment s) ! 5 =
      (if month_entered ?d (is_leap_year s) = 0x13 then 0x01
       else carry_byte (month_entered ?d (is_leap_year s)))"
    unfolding s9 by (simp add: n9(3) leap_store n7(4) n6(2) m del: One_nat_def)
  have y: "DATA_STORE ?s6 ! 6 = year_entered ?d (is_leap_year s)"
    by (simp add: n6(3) m n5(4) n4(7) year_entered_def del: One_nat_def)
  show "DATA_STORE (time_increment s) ! 6 =
      (if year_entered ?d (is_leap_year s) = 0x9A then 0x00
       else carry_byte (year_entered ?d (is_leap_year s)))"
    unfolding s9 by (simp add: n9(3) leap_store n7(2) y del: One_nat_def)
  have c: "DATA_STORE ?s8 ! 7 = century_entered ?d (is_leap_year s)"
    by (simp add: leap_store n7(3) y n6(4) n5(4) n4(7) century_entered_def del: One_nat_def)
  show "DATA_STORE (time_increment s) ! 7 =
      (if century_entered ?d (is_leap_year s) = 0x9A then 0x00
       else carry_byte (century_entered ?d (is_leap_year s)))"
    unfolding s9 by (simp add: n9(2) c del: One_nat_def)
  show "DATA_STORE (time_increment s) ! i = ?d ! i" if "8 \<le> i"
    unfolding s9 using that by (simp add: n9(3) leap_store n7(4) n6(4) n5(4) n4(7) del: One_nat_def)
  have "(a OR (if p then BIT2 else 0)) AND NOT BIT2 = a AND NOT BIT2" for a :: u8 and p
    by (simp add: bit.conj_disj_distrib2 del: One_nat_def)
  then show "RTC_action_bits (time_increment s) =
      (RTC_action_bits s OR (if ?d ! 0 + 1 = 0x5A then BIT3 else 0)) AND NOT BIT2"
    unfolding s9
    by (simp only: century_others leap_others year_others month_others date_others n4(9))
qed

section \<open>BCD bytes\<close>

lemma bcd_byte_all:
  "\<forall>b::u8. valid_bcd b \<longrightarrow>
     carry_byte b = b \<and>
     (b \<noteq> 0x99 \<longrightarrow> valid_bcd (carry_byte (b + 1)) \<and>
        bcd_val (carry_byte (b + 1)) = bcd_val b + 1) \<and>
     (b \<le> 0x59 \<longrightarrow> b \<noteq> 0x99 \<and> (b + 1 = 0x5A \<longleftrightarrow> b = 0x59) \<and>
        bcd_val (if b + 1 = 0x5A then 0x00 else carry_byte (b + 1)) = (bcd_val b + 1) mod 60) \<and>
     (b \<le> 0x07 \<longrightarrow> valid_bcd (b + 1))"
  unfolding u8_all valid_bcd_def carry_byte_def bcd_val_def bcd_tens_def bcd_units_def
  by code_simp

lemma action_bits_all:
  "\<forall>a::u8. ((a OR BIT3) AND NOT BIT2) AND BIT3 = BIT3"
  unfolding u8_all BIT_defs by code_simp

lemma carry_valid: "valid_bcd b \<Longrightarrow> carry_byte b = b"
  using bcd_byte_all by blast

lemma carry_next_valid: "valid_bcd b \<Longrightarrow> b \<noteq> 0x99 \<Longrightarrow> valid_bcd (carry_byte (b + 1))"
  using bcd_byte_all by blast


lemma sixty_next:
  "valid_bcd b \<Longrightarrow> b \<le> 0x59 \<Longrightarrow>
   bcd_val (if b + 1 = 0x5A then 0x00 else carry_byte (b + 1)) = (bcd_val b + 1) mod 60"
  using bcd_byte_all by blast


lemma day_next_valid: "valid_bcd b \<Longrightarrow> b \<le> 0x07 \<Longrightarrow> valid_bcd (b + 1)"
  using bcd_byte_all by blast

lemma valid_bcd_consts:
  "valid_bcd 0x00" "valid_bcd 0x01" "\<not> valid_bcd 0x5A" "\<not> valid_bcd 0x9A"
  by (simp_all add: valid_bcd_def)

text \<open>A field that is entered as it was or incremented by one leaves its block in BCD.\<close>

lemma field_valid:
  assumes "valid_bcd b" "x = b \<or> x = b + 1" "b \<noteq> 0x99 \<or> x = lim"
  shows "valid_bcd (if x = lim then c else carry_byte x) \<or> (x = lim \<and> \<not> valid_bcd c)"
  using assms carry_valid [of b] carry_next_valid [of b] by auto

lemma le_not_99: "(b :: u8) \<le> 0x59 \<Longrightarrow> b \<noteq> 0x99"
  "(b :: u8) \<le> 0x23 \<Longrightarrow> b \<noteq> 0x99" "(b :: u8) \<le> 0x31 \<Longrightarrow> b \<noteq> 0x99"
  "(b :: u8) \<le> 0x12 \<Longrightarrow> b \<noteq> 0x99"
  by auto

lemma days_in_month_le: "days_in_month m l \<le> 0x31"
  by (simp add: days_in_month_def)

lemma entered_cases:
  "minute_entered d = d ! 1 \<or> minute_entered d = d ! 1 + 1"
  "hour_entered d = d ! 2 \<or> hour_entered d = d ! 2 + 1"
  "day_entered d = d ! 3 \<or> day_entered d = d ! 3 + 1"
  "date_entered d = d ! 4 \<or> date_entered d = d ! 4 + 1"
  "month_entered d l = d ! 5 \<or> month_entered d l = d ! 5 + 1"
  "year_entered d l = d ! 6 \<or> year_entered d l = d ! 6 + 1"
  "century_entered d l = d ! 7 \<or> century_entered d l = d ! 7 + 1"
  by (simp_all add: minute_entered_def hour_entered_def day_entered_def date_entered_def
      month_entered_def year_entered_def century_entered_def)

lemma action_bit3: "((a OR BIT3) AND NOT BIT2) AND BIT3 \<noteq> 0" for a :: u8
  using action_bits_all [rule_format, of a] by (simp add: BIT3_def)


section \<open>The time engine\<close>

text \<open>
  C3. The switch on the date (lines 207-243), entered with the date \<open>d\<close>, the month and
  the cached leap year flag: it sets the date to \<open>0x01\<close> and increments the month exactly
  when \<open>d = 0x29\<close>, the month is \<open>0x02\<close> and the flag is 0; or \<open>d = 0x30\<close> and the month
  is \<open>0x02\<close>; or \<open>d = 0x31\<close> and the month is \<open>0x04\<close>, \<open>0x06\<close>, \<open>0x09\<close> or \<open>0x11\<close>;
  or \<open>d = 0x32\<close> and the month is \<open>0x01\<close>, \<open>0x03\<close>, \<open>0x05\<close>, \<open>0x07\<close>, \<open>0x08\<close>,
  \<open>0x10\<close> or \<open>0x12\<close>. Otherwise the month is untouched: the dates \<open>0x29\<close> to \<open>0x32\<close>
  stay as they are and every other date only gets its BCD carry. The date the switch
  leaves is the date \<open>_time_increment\<close> returns.
\<close>

theorem date_rollover:
  assumes len: "length (DATA_STORE s) = 31"
  shows "DATA_STORE (time_increment_date s) =
      (if date_rolls (DATA_STORE s ! 4) (DATA_STORE s ! 5) (is_leap_year s)
       then (DATA_STORE s)[4 := 0x01, 5 := DATA_STORE s ! 5 + 1]
       else if DATA_STORE s ! 4 = 0x29 \<or> DATA_STORE s ! 4 = 0x30 \<or>
               DATA_STORE s ! 4 = 0x31 \<or> DATA_STORE s ! 4 = 0x32
       then DATA_STORE s
       else (DATA_STORE s)[4 := carry_byte (DATA_STORE s ! 4)]) \<and>
    (DATA_STORE (time_increment_date s) ! 4 = 0x01 \<and>
     DATA_STORE (time_increment_date s) ! 5 = DATA_STORE s ! 5 + 1 \<longleftrightarrow>
       date_rolls (DATA_STORE s ! 4) (DATA_STORE s ! 5) (is_leap_year s)) \<and>
    DATA_STORE (time_increment s) ! 4 =
      DATA_STORE (time_increment_date (time_increment_to_day s)) ! 4"
proof -
  note n = date_nth [OF len]
  note t = to_day_nth [OF len]
  have "DATA_STORE (time_increment s) ! 4 =
      DATA_STORE (time_increment_date (time_increment_to_day s)) ! 4"
    by (simp add: time_increment_nth(6) [OF len] date_nth(2) [OF t(1)] t(6) t(7) t(8))
  moreover have "DATA_STORE (time_increment_date s) ! 4 = 0x01 \<and>
     DATA_STORE (time_increment_date s) ! 5 = DATA_STORE s ! 5 + 1 \<longleftrightarrow>
       date_rolls (DATA_STORE s ! 4) (DATA_STORE s ! 5) (is_leap_year s)"
    by (simp add: n(2) n(3))
  ultimately show ?thesis using date_store [OF len] by simp
qed

theorem date_rollover_witness:
  "DATA_STORE (time_increment_date (state_of leap_day_store)) =
     leap_day_store[4 := 0x01, 5 := 0x03] \<and>
   DATA_STORE (time_increment_date ((state_of leap_day_store)\<lparr>is_leap_year := 1\<rparr>)) =
     leap_day_store"
  using date_rollover [of "state_of leap_day_store"]
    date_rollover [of "(state_of leap_day_store)\<lparr>is_leap_year := 1\<rparr>"]
  by (simp add: state_of_def leap_day_store_def new_year_store_def date_rolls_def)

lemma time_increment_valid:
  assumes len: "length (DATA_STORE s) = 31" and cal: "valid_calendar (DATA_STORE s)"
    and i: "i < 8"
  shows "valid_bcd (DATA_STORE (time_increment s) ! i)"
proof -
  let ?d = "DATA_STORE s"
  let ?l = "is_leap_year s"
  note n = time_increment_nth [OF len]
  from cal have v: "valid_bcd (?d ! 0)" "valid_bcd (?d ! 1)" "valid_bcd (?d ! 2)"
    "valid_bcd (?d ! 3)" "valid_bcd (?d ! 4)" "valid_bcd (?d ! 5)" "valid_bcd (?d ! 6)"
    "valid_bcd (?d ! 7)"
    and r: "?d ! 0 \<le> 0x59" "?d ! 1 \<le> 0x59" "?d ! 2 \<le> 0x23" "?d ! 3 \<le> 0x07" "?d ! 5 \<le> 0x12"
    and dt: "?d ! 4 \<le> days_in_month (?d ! 5) (leap_gregorian (?d ! 7) (?d ! 6))"
    by (simp_all add: valid_calendar_def)
  from dt have r4: "?d ! 4 \<le> 0x31" using days_in_month_le order_trans by blast
  have f0: "valid_bcd (DATA_STORE (time_increment s) ! 0)"
    using field_valid [of "?d ! 0" "?d ! 0 + 1" "0x5A" "0x00"] v(1) le_not_99(1) [OF r(1)]
    by (simp add: n(2) valid_bcd_consts)
  have f1: "valid_bcd (DATA_STORE (time_increment s) ! 1)"
    using field_valid [of "?d ! 1" "minute_entered ?d" "0x5A" "0x00"] v(2)
      le_not_99(1) [OF r(2)] entered_cases(1) [of ?d]
    by (simp add: n(3) valid_bcd_consts del: One_nat_def)
  have f2: "valid_bcd (DATA_STORE (time_increment s) ! 2)"
    using field_valid [of "?d ! 2" "hour_entered ?d" "0x24" "0x00"] v(3)
      le_not_99(2) [OF r(3)] entered_cases(2) [of ?d]
    by (simp add: n(4) valid_bcd_consts)
  have f3: "valid_bcd (DATA_STORE (time_increment s) ! 3)"
    using entered_cases(3) [of ?d] v(4) day_next_valid [OF v(4) r(4)]
    by (auto simp: n(5) valid_bcd_consts)
  have f4: "valid_bcd (DATA_STORE (time_increment s) ! 4)"
    using entered_cases(4) [of ?d] carry_valid [OF v(5)]
      carry_next_valid [OF v(5) le_not_99(3) [OF r4]] v(5)
    by (auto simp: n(6) valid_bcd_consts)
  have f5: "valid_bcd (DATA_STORE (time_increment s) ! 5)"
    using field_valid [of "?d ! 5" "month_entered ?d ?l" "0x13" "0x01"] v(6)
      le_not_99(4) [OF r(5)] entered_cases(5) [of ?d ?l]
    by (simp add: n(7) valid_bcd_consts)
  have f6: "valid_bcd (DATA_STORE (time_increment s) ! 6)"
  proof (cases "year_entered ?d ?l = 0x9A")
    case True
    then show ?thesis by (simp add: n(8) valid_bcd_consts)
  next
    case False
    then have "?d ! 6 \<noteq> 0x99 \<or> year_entered ?d ?l = ?d ! 6"
      using entered_cases(6) [of ?d ?l] by auto
    then show ?thesis
      using False entered_cases(6) [of ?d ?l] carry_valid [OF v(7)] carry_next_valid [OF v(7)] v(7)
      by (auto simp: n(8))
  qed
  have f7: "valid_bcd (DATA_STORE (time_increment s) ! 7)"
  proof (cases "century_entered ?d ?l = 0x9A")
    case True
    then show ?thesis by (simp add: n(9) valid_bcd_consts)
  next
    case False
    then have "?d ! 7 \<noteq> 0x99 \<or> century_entered ?d ?l = ?d ! 7"
      using entered_cases(7) [of ?d ?l] by auto
    then show ?thesis
      using False entered_cases(7) [of ?d ?l] carry_valid [OF v(8)] carry_next_valid [OF v(8)] v(8)
      by (auto simp: n(9))
  qed
  from i have "i = 0 \<or> i = 1 \<or> i = 2 \<or> i = 3 \<or> i = 4 \<or> i = 5 \<or> i = 6 \<or> i = 7" by arith
  then show ?thesis using f0 f1 f2 f3 f4 f5 f6 f7 by blast
qed

text \<open>
  C4. If the time and date bytes 0 to 7 hold a valid calendar instant, each of them holds
  two BCD digits again after \<open>_time_increment\<close>, whatever the cached leap year flag and
  the action bits are.
\<close>

theorem time_increment_bcd:
  assumes "length (DATA_STORE s) = 31" and "valid_calendar (DATA_STORE s)" and "i < 8"
  shows "valid_bcd (DATA_STORE (time_increment s) ! i)"
  using assms by (rule time_increment_valid)

theorem time_increment_bcd_witness:
  "valid_calendar new_year_store \<and>
   valid_bcd (DATA_STORE (time_increment (state_of new_year_store)) ! 6) \<and>
   valid_bcd (DATA_STORE (time_increment (state_of new_year_store)) ! 0)"
  using time_increment_bcd [of "state_of new_year_store" 6]
    time_increment_bcd [of "state_of new_year_store" 0]
  by (simp add: state_of_def new_year_store_def valid_calendar_def valid_bcd_def
      days_in_month_def leap_gregorian_def bcd_val_def bcd_tens_def bcd_units_def)

text \<open>
  C5. From a valid calendar instant with the second at \<open>0x59\<close>, \<open>_time_increment\<close>
  leaves the second at \<open>0x00\<close> and the minute in BCD with the value of the old minute
  plus one (modulo 60: \<open>0x59\<close> becomes \<open>0x00\<close>), and \<open>BIT3\<close> of the action bits is set
  on return. The bytes from offset 8 on, the alarm flags at offset 30 among them, are as
  they were: the alarms are not evaluated here.
\<close>

theorem second_rollover:
  assumes len: "length (DATA_STORE s) = 31" and cal: "valid_calendar (DATA_STORE s)"
    and sec: "DATA_STORE s ! 0 = 0x59"
  shows "DATA_STORE (time_increment s) ! 0 = 0x00 \<and>
    valid_bcd (DATA_STORE (time_increment s) ! 1) \<and>
    bcd_val (DATA_STORE (time_increment s) ! 1) = (bcd_val (DATA_STORE s ! 1) + 1) mod 60 \<and>
    RTC_action_bits (time_increment s) AND BIT3 \<noteq> 0 \<and>
    (\<forall>i. 8 \<le> i \<longrightarrow> DATA_STORE (time_increment s) ! i = DATA_STORE s ! i)"
proof -
  let ?d = "DATA_STORE s"
  note n = time_increment_nth [OF len]
  from cal have v: "valid_bcd (?d ! 1)" and r: "?d ! 1 \<le> 0x59"
    by (simp_all add: valid_calendar_def)
  have m: "minute_entered ?d = ?d ! 1 + 1" using sec by (simp add: minute_entered_def)
  have "DATA_STORE (time_increment s) ! 0 = 0x00" using sec by (simp add: n(2))
  moreover have "valid_bcd (DATA_STORE (time_increment s) ! 1)"
    using time_increment_valid [OF len cal, of 1] by simp
  moreover have "bcd_val (DATA_STORE (time_increment s) ! 1) = (bcd_val (?d ! 1) + 1) mod 60"
    unfolding n(3) m by (rule sixty_next [OF v r])
  moreover have "RTC_action_bits (time_increment s) AND BIT3 \<noteq> 0"
    using sec action_bit3 [of "RTC_action_bits s"] by (simp add: n(11))
  ultimately show ?thesis using n(10) by blast
qed

theorem second_rollover_witness:
  "valid_calendar new_year_store \<and>
   DATA_STORE (time_increment (state_of new_year_store)) ! 0 = 0x00 \<and>
   bcd_val (DATA_STORE (time_increment (state_of new_year_store)) ! 1) = 0 \<and>
   RTC_action_bits (time_increment (state_of new_year_store)) AND BIT3 \<noteq> 0"
  using second_rollover [of "state_of new_year_store"]
  by (simp add: state_of_def new_year_store_def valid_calendar_def valid_bcd_def
      days_in_month_def leap_gregorian_def bcd_val_def bcd_tens_def bcd_units_def)

lemmas time_increment_defs =
  time_increment_def time_increment_to_day_def time_increment_second_def
  time_increment_minute_def time_increment_hour_def time_increment_day_def
  time_increment_date_def time_increment_month_def time_increment_year_def
  time_increment_leap_def time_increment_century_def time_carry_def next_month_def
  check_leap_year_def


text \<open>
  The cached flag is written by \<open>_check_leap_year\<close> only, at start-up and when the year
  rolls over; a host write of the year does not refresh it. From the start-up state the
  host writes 2004-02-29 12:00:00: \<open>_check_leap_year\<close> would compute 1 for the year 04,
  the cache still holds the 0 of the year 00, and the next \<open>_time_increment\<close> moves the
  date to 1 March.
\<close>

lemma stale_leap_cache_example:
  "receive_bytes [0x00, 0x00, 0x00, 0x12, 0x07, 0x29, 0x02, 0x04, 0x20] (state_of epoch_store) =
     Inr ((state_of leap_day_store)\<lparr>I2C_data_offset := 8, USI_I2C_slave_n_byte := 1\<rparr>) \<and>
   is_leap_year ((state_of leap_day_store)\<lparr>I2C_data_offset := 8, USI_I2C_slave_n_byte := 1\<rparr>) = 0 \<and>
   is_leap_year (check_leap_year
     ((state_of leap_day_store)\<lparr>I2C_data_offset := 8, USI_I2C_slave_n_byte := 1\<rparr>)) = 1 \<and>
   DATA_STORE (time_increment
     ((state_of leap_day_store)\<lparr>I2C_data_offset := 8, USI_I2C_slave_n_byte := 1\<rparr>)) =
   [0x01, 0x00, 0x12, 0x07, 0x01, 0x03, 0x04, 0x20,
     0, 0, 0, 0, 0, 0, 0, 0, 0, 0, 0, 0, 0, 0, 0, 0, 0, 0, 0, 0, 0, 0, 0]"
  by (simp add: state_of_def epoch_store_def leap_day_store_def carry_byte_def
      USI_I2C_slave_RX_callback_def store_at_def time_increment_defs Let_def BIT_defs)




end
